theory Spec2Isabelle
  imports Main
begin

section \<open>Tic-Tac-Toe (app.js): the game variables and the functions that change them\<close>

text \<open>
  The program keeps its game in three variables of one closure: \<open>board\<close> (an array of
  nine entries, each \<open>"X"\<close>, \<open>"O"\<close> or \<open>null\<close>), \<open>currentPlayer\<close> and \<open>gameOver\<close>.
  The model passes them around as a record, together with the two text nodes the
  functions write to (\<open>statusText\<close>, \<open>liveRegion\<close>): they are the only place where the
  program tells a rejected move from a placed one and a win from a draw.

  Left out of the record: the nine buttons (\<open>textContent\<close>, \<open>disabled\<close>,
  \<open>aria-pressed\<close>, the \<open>win\<close> and \<open>focused\<close> classes) and \<open>focusedIndex\<close>. No statement
  of \<open>getWinner\<close>, \<open>isDraw\<close>, \<open>render\<close>, \<open>attemptMove\<close> or \<open>restartGame\<close> reads them
  to decide anything about the three game variables; \<open>setFocus\<close> and
  \<open>clearWinStyles\<close> only write to the buttons.

  \<open>attemptMove\<close> has two callers: the click handler of a button, with the button's
  index \<open>0..8\<close>, and \<open>handleKeyDown\<close> on Enter or Space, with \<open>focusedIndex\<close>. Both
  return before the call when \<open>gameOver\<close> is set. The model takes \<open>attemptMove\<close> on
  its own, at every state and every integer index.
\<close>

subsection \<open>Values\<close>

text \<open>The two player strings \<open>"X"\<close> and \<open>"O"\<close>.\<close>

datatype mark = PlayerX | PlayerO

text \<open>
  What \<open>board[i]\<close> can evaluate to: \<open>undefined\<close> (no such element), \<open>null\<close> (an empty
  cell) or a player's string.
\<close>

datatype jsval = Undefined | Null | Str mark

type_synonym jsarray = "jsval list"

text \<open>A winning line \<open>[a, b, c]\<close>, destructured by \<open>getWinner\<close>.\<close>

type_synonym line = "int \<times> int \<times> int"

fun mark_str :: "mark \<Rightarrow> string" where
  "mark_str PlayerX = ''X''"
| "mark_str PlayerO = ''O''"

text \<open>Conversion to a string inside a template literal.\<close>

fun js_string :: "jsval \<Rightarrow> string" where
  "js_string Undefined = ''undefined''"
| "js_string Null = ''null''"
| "js_string (Str m) = mark_str m"

text \<open>
  Truthiness, as \<open>board[a] && ...\<close> and \<open>v ? v : ""\<close> test it: \<open>undefined\<close> and \<open>null\<close>
  are falsy, the non-empty strings \<open>"X"\<close> and \<open>"O"\<close> are truthy.
\<close>

fun truthy :: "jsval \<Rightarrow> bool" where
  "truthy Undefined = False"
| "truthy Null = False"
| "truthy (Str m) = True"

text \<open>
  \<open>board[i]\<close> for an integer \<open>i\<close>: the element when \<open>0 \<le> i < board.length\<close>, and
  \<open>undefined\<close> otherwise (JavaScript does not raise on an out-of-range read).
\<close>

definition js_get :: "jsarray \<Rightarrow> int \<Rightarrow> jsval" where
  "js_get xs i = (if 0 \<le> i \<and> i < int (length xs) then xs ! nat i else Undefined)"

text \<open>
  \<open>board[i] = v\<close> for an integer \<open>i\<close>. In range it replaces the element. At or beyond
  the length JavaScript extends the array, leaving holes that read as \<open>undefined\<close>. A
  negative \<open>i\<close> is not an array index: the assignment adds a property named by \<open>i\<close>
  and leaves the elements and the length as they are (the list does not record such a
  property). \<open>attemptMove\<close> writes only after reading \<open>null\<close> at the same index,
  which an out-of-range read never yields.
\<close>

definition js_set :: "jsarray \<Rightarrow> int \<Rightarrow> jsval \<Rightarrow> jsarray" where
  "js_set xs i v =
     (if 0 \<le> i \<and> i < int (length xs) then xs[nat i := v]
      else if int (length xs) \<le> i then xs @ replicate (nat i - length xs) Undefined @ [v]
      else xs)"

subsection \<open>State\<close>

record game =
  board :: jsarray
  currentPlayer :: mark
  gameOver :: bool
  statusText :: string
  liveRegion :: string

text \<open>\<open>announce(message)\<close> and \<open>setStatusText(text)\<close>.\<close>

definition announce :: "string \<Rightarrow> game \<Rightarrow> game" where
  "announce message s = s\<lparr>liveRegion := message\<rparr>"

definition setStatusText :: "string \<Rightarrow> game \<Rightarrow> game" where
  "setStatusText t s = s\<lparr>statusText := t\<rparr>"

subsection \<open>Winner and draw\<close>

definition WIN_LINES :: "line list" where
  "WIN_LINES =
     [(0, 1, 2), (3, 4, 5), (6, 7, 8),
      (0, 3, 6), (1, 4, 7), (2, 5, 8),
      (0, 4, 8), (2, 4, 6)]"

text \<open>
  The \<open>for (const line of WIN_LINES)\<close> loop of \<open>getWinner\<close> over the lines still to
  visit: it returns \<open>{ player: board[a], line }\<close> at the first line that passes the
  test, and \<open>null\<close> (here \<open>None\<close>) when the lines run out.
\<close>

fun getWinner_from :: "jsarray \<Rightarrow> line list \<Rightarrow> (jsval \<times> line) option" where
  "getWinner_from bd [] = None"
| "getWinner_from bd ((a, b, c) # ls) =
     (if truthy (js_get bd a) \<and> js_get bd a = js_get bd b \<and> js_get bd a = js_get bd c
      then Some (js_get bd a, (a, b, c))
      else getWinner_from bd ls)"

definition getWinner :: "jsarray \<Rightarrow> (jsval \<times> line) option" where
  "getWinner bd = getWinner_from bd WIN_LINES"

text \<open>\<open>board.every((v) => v !== null) && !getWinner()\<close>.\<close>

definition isDraw :: "jsarray \<Rightarrow> bool" where
  "isDraw bd = (list_all (\<lambda>v. v \<noteq> Null) bd \<and> getWinner bd = None)"

subsection \<open>Rendering, moves, restart\<close>

text \<open>
  \<open>render()\<close>, without the writes to the buttons (\<open>clearWinStyles\<close>, the loop over
  the cells, the \<open>win\<close> class, \<open>setFocus\<close>): the winner branch, the draw branch, and
  "still playing". Only the first two assign \<open>gameOver\<close>.
\<close>

definition render :: "game \<Rightarrow> game" where
  "render s =
     (case getWinner (board s) of
        Some (player, ln) \<Rightarrow>
          (announce (js_string player @ '' wins!'')
            (setStatusText (js_string player @ '' wins!'') s))\<lparr>gameOver := True\<rparr>
      | None \<Rightarrow>
          if isDraw (board s)
          then (announce ''Draw!'' (setStatusText ''Draw!'' s))\<lparr>gameOver := True\<rparr>
          else setStatusText (''Turn: '' @ mark_str (currentPlayer s)) s)"

text \<open>
  \<open>attemptMove\<close> returns nothing in the source. The model pairs the state it leaves
  with a tag for the return statement it took: \<open>Some GameOver\<close> for the return at
  \<open>if (gameOver)\<close>, \<open>Some CellOccupied\<close> for the return after
  \<open>announce("That cell is already taken.")\<close>, and \<open>None\<close> when it runs to the end and
  a mark is placed. The source has no check of the index against \<open>0..8\<close>, so no return
  statement is tagged \<open>InvalidIndex\<close>.
\<close>

datatype MoveError = GameOver | InvalidIndex | CellOccupied

definition attemptMove :: "game \<Rightarrow> int \<Rightarrow> MoveError option \<times> game" where
  "attemptMove s index =
     (if gameOver s then (Some GameOver, s)
      else if js_get (board s) index \<noteq> Null
      then (Some CellOccupied, announce ''That cell is already taken.'' s)
      else
        let s1 = s\<lparr>board := js_set (board s) index (Str (currentPlayer s))\<rparr>;
            s2 = s1\<lparr>currentPlayer := (if currentPlayer s1 = PlayerX then PlayerO else PlayerX)\<rparr>;
            s3 = announce (''Move placed. Turn: '' @ mark_str (currentPlayer s2)) s2
        in (None, render s3))"

text \<open>\<open>restartGame()\<close>; \<open>Array(9).fill(null)\<close> is nine \<open>null\<close>s.\<close>

definition restartGame :: "game \<Rightarrow> game" where
  "restartGame s =
     render
       (announce ''New game started. Turn: X''
         (setStatusText ''Turn: X''
           (s\<lparr>board := replicate 9 Null, currentPlayer := PlayerX, gameOver := False\<rparr>)))"

text \<open>
  The variables as the closure initialises them, and the state after the
  \<open>restartGame()\<close> call that ends the script: the new game. What the two text
  nodes hold before that call is the page's business (taken as empty here);
  \<open>restartGame\<close> overwrites both.
\<close>

definition initial :: game where
  "initial =
     \<lparr>board = replicate 9 Null, currentPlayer = PlayerX, gameOver = False,
      statusText = [], liveRegion = []\<rparr>"

definition newGame :: game where
  "newGame = restartGame initial"

subsection \<open>Arrow keys\<close>

text \<open>
  JavaScript's \<open>%\<close> on integers: the remainder takes the sign of the dividend.
\<close>

definition js_rem :: "int \<Rightarrow> int \<Rightarrow> int" where
  "js_rem a b = (if 0 \<le> a then a mod \<bar>b\<bar> else - ((- a) mod \<bar>b\<bar>))"

text \<open>
  The arrow branch of \<open>handleKeyDown\<close>, from \<open>focusedIndex\<close> and \<open>e.key\<close> to the
  \<open>newIndex\<close> handed to \<open>setFocus\<close>. \<open>Math.floor(focusedIndex / 3)\<close> is \<open>div\<close> on
  integers. The four \<open>if\<close>s run one after the other, as in the source.
\<close>

definition focusStep :: "int \<Rightarrow> string \<Rightarrow> int" where
  "focusStep focusedIndex key =
     (let row = focusedIndex div 3;
          col = js_rem focusedIndex 3;
          newRow = row;
          newCol = col;
          newRow = (if key = ''ArrowUp'' then max 0 (row - 1) else newRow);
          newRow = (if key = ''ArrowDown'' then min 2 (row + 1) else newRow);
          newCol = (if key = ''ArrowLeft'' then max 0 (col - 1) else newCol);
          newCol = (if key = ''ArrowRight'' then min 2 (col + 1) else newCol)
      in newRow * 3 + newCol)"

section \<open>The vocabulary of the specification, over the code\<close>

text \<open>
  A board of the data model: nine cells, none of them \<open>undefined\<close>.
\<close>

definition wf_board :: "jsarray \<Rightarrow> bool" where
  "wf_board bd = (length bd = 9 \<and> list_all (\<lambda>v. v \<noteq> Undefined) bd)"

text \<open>A cell is non-empty when it holds one of the two marks.\<close>

definition nonEmpty :: "jsval \<Rightarrow> bool" where
  "nonEmpty v = (v = Str PlayerX \<or> v = Str PlayerO)"

text \<open>A line is satisfied when its three cells are equal and non-empty.\<close>

definition satisfied :: "jsarray \<Rightarrow> line \<Rightarrow> bool" where
  "satisfied bd ln =
     (case ln of (a, b, c) \<Rightarrow>
        nonEmpty (js_get bd a) \<and> js_get bd b = js_get bd a \<and> js_get bd c = js_get bd a)"

text \<open>
  The status of a board. The source has no function of this name: \<open>evaluate\<close> is the
  decision \<open>render\<close> makes from \<open>getWinner()\<close> and \<open>isDraw()\<close>, in its order: a
  winner first, then a draw, else still playing.
\<close>

datatype status = InProgress | Won jsval line | Draw

definition evaluate :: "jsarray \<Rightarrow> status" where
  "evaluate bd =
     (case getWinner bd of
        Some (player, ln) \<Rightarrow> Won player ln
      | None \<Rightarrow> if isDraw bd then Draw else InProgress)"

text \<open>The status line \<open>render\<close> shows for a status, given whose turn it is.\<close>

fun status_line :: "status \<Rightarrow> mark \<Rightarrow> string" where
  "status_line (Won player ln) turn = js_string player @ '' wins!''"
| "status_line Draw turn = ''Draw!''"
| "status_line InProgress turn = ''Turn: '' @ mark_str turn"

text \<open>
  A sequence of \<open>attemptMove\<close> calls, one per index, each on the state the call before
  left: the tags of the calls in order, and the final state.
\<close>

fun attemptMoves :: "game \<Rightarrow> int list \<Rightarrow> MoveError option list \<times> game" where
  "attemptMoves s [] = ([], s)"
| "attemptMoves s (i # is) =
     (case attemptMove s i of
        (r, s') \<Rightarrow> (case attemptMoves s' is of (rs, s'') \<Rightarrow> (r # rs, s'')))"

text \<open>The number of calls of a sequence that placed a mark.\<close>

definition placed :: "MoveError option list \<Rightarrow> nat" where
  "placed rs = length (filter (\<lambda>r. r = None) rs)"

text \<open>
  What the variables of a game in play have in common: a board of the data model, with
  \<open>gameOver\<close> and the status line saying what \<open>evaluate\<close> says of the board.
\<close>

definition consistent :: "game \<Rightarrow> bool" where
  "consistent s =
     (wf_board (board s)
      \<and> gameOver s = (evaluate (board s) \<noteq> InProgress)
      \<and> statusText s = status_line (evaluate (board s)) (currentPlayer s))"

text \<open>The four directions and the \<open>e.key\<close> string of each.\<close>

datatype direction = Up | Down | Left | Right

fun key_of :: "direction \<Rightarrow> string" where
  "key_of Up = ''ArrowUp''"
| "key_of Down = ''ArrowDown''"
| "key_of Left = ''ArrowLeft''"
| "key_of Right = ''ArrowRight''"

section \<open>Reading and writing the board\<close>

lemma js_get_in_range:
  "0 \<le> i \<Longrightarrow> i < int (length xs) \<Longrightarrow> js_get xs i = xs ! nat i"
  by (simp add: js_get_def)

lemma js_get_out_of_range:
  "i < 0 \<or> int (length xs) \<le> i \<Longrightarrow> js_get xs i = Undefined"
  by (auto simp: js_get_def)

lemma js_get_Null_in_range:
  "js_get xs i = Null \<Longrightarrow> 0 \<le> i \<and> i < int (length xs)"
  by (simp add: js_get_def split: if_splits)

lemma js_set_in_range:
  "0 \<le> i \<Longrightarrow> i < int (length xs) \<Longrightarrow> js_set xs i v = xs[nat i := v]"
  by (simp add: js_set_def)

lemma truthy_nonEmpty: "truthy v = nonEmpty v"
  by (cases v rule: truthy.cases) (auto simp: nonEmpty_def intro: mark.exhaust)

lemma nonEmpty_iff: "nonEmpty v = (v \<noteq> Null \<and> v \<noteq> Undefined)"
  by (cases v rule: truthy.cases) (auto simp: nonEmpty_def intro: mark.exhaust)

text \<open>On a board of the data model, \<open>every((v) => v !== null)\<close> says that all nine
  cells hold a mark.\<close>

lemma wf_board_full:
  assumes "wf_board bd"
  shows "list_all (\<lambda>v. v \<noteq> Null) bd = (\<forall>i\<in>{0..8}. nonEmpty (js_get bd i))"
proof -
  from assms have len: "length bd = 9" and def: "\<forall>n<9. bd ! n \<noteq> Undefined"
    by (simp_all add: wf_board_def list_all_length)
  have "list_all (\<lambda>v. v \<noteq> Null) bd = (\<forall>n<9. bd ! n \<noteq> Null)"
    by (simp add: list_all_length len)
  also have "\<dots> = (\<forall>n<9. nonEmpty (bd ! n))"
    using def by (simp add: nonEmpty_iff)
  also have "\<dots> = (\<forall>i\<in>{0..8::int}. nonEmpty (js_get bd i))"
  proof (intro iffI ballI allI impI)
    fix i :: int
    assume a: "\<forall>n<9. nonEmpty (bd ! n)" and i: "i \<in> {0..8}"
    then have "nat i < 9" by auto
    with a have "nonEmpty (bd ! nat i)" by blast
    with i len show "nonEmpty (js_get bd i)" by (simp add: js_get_def)
  next
    fix n :: nat
    assume a: "\<forall>i\<in>{0..8::int}. nonEmpty (js_get bd i)" and n: "n < 9"
    then have "int n \<in> {0..8}" by auto
    with a have "nonEmpty (js_get bd (int n))" by blast
    with n len show "nonEmpty (bd ! n)" by (simp add: js_get_def)
  qed
  finally show ?thesis .
qed

section \<open>The winner loop\<close>

text \<open>The test of the loop body is the specification's "equal and non-empty".\<close>

lemma line_test_satisfied:
  "(truthy (js_get bd a) \<and> js_get bd a = js_get bd b \<and> js_get bd a = js_get bd c)
     = satisfied bd (a, b, c)"
  by (auto simp: satisfied_def truthy_nonEmpty)

lemma getWinner_from_step:
  "getWinner_from bd (l # ls) =
     (if satisfied bd l then Some (js_get bd (fst l), l) else getWinner_from bd ls)"
proof -
  obtain a b c where l: "l = (a, b, c)" by (cases l)
  show ?thesis unfolding l
    by (simp only: getWinner_from.simps line_test_satisfied fst_conv)
qed

lemma getWinner_from_None:
  "(getWinner_from bd ls = None) = (\<forall>ln\<in>set ls. \<not> satisfied bd ln)"
  by (induction ls) (simp_all add: getWinner_from_step del: getWinner_from.simps(2))

text \<open>The loop returns the first satisfied line of the list, with what its cells hold.\<close>

lemma getWinner_from_Some:
  "(getWinner_from bd ls = Some (p, ln)) =
     (\<exists>n<length ls. ls ! n = ln \<and> satisfied bd ln \<and> p = js_get bd (fst ln) \<and>
        (\<forall>k<n. \<not> satisfied bd (ls ! k)))"
proof (induction ls)
  case Nil
  show ?case by simp
next
  case (Cons l ls)
  let ?first = "\<lambda>xs. \<exists>n<length xs. xs ! n = ln \<and> satisfied bd ln \<and> p = js_get bd (fst ln) \<and>
        (\<forall>k<n. \<not> satisfied bd (xs ! k))"
  show ?case
  proof (cases "satisfied bd l")
    case True
    have here: "getWinner_from bd (l # ls) = Some (js_get bd (fst l), l)"
      using True by (simp add: getWinner_from_step del: getWinner_from.simps(2))
    have "?first (l # ls) = (ln = l \<and> p = js_get bd (fst l))"
    proof
      assume "?first (l # ls)"
      then obtain n where n: "(l # ls) ! n = ln" "p = js_get bd (fst ln)"
        "\<forall>k<n. \<not> satisfied bd ((l # ls) ! k)" by blast
      have "n = 0"
      proof (rule ccontr)
        assume "n \<noteq> 0"
        then have "0 < n" by simp
        with n(3) have "\<not> satisfied bd ((l # ls) ! 0)" by blast
        with True show False by simp
      qed
      with n show "ln = l \<and> p = js_get bd (fst l)" by simp
    next
      assume "ln = l \<and> p = js_get bd (fst l)"
      with True show "?first (l # ls)"
        by (intro exI [of _ 0]) simp
    qed
    with here show ?thesis by auto
  next
    case False
    have skip: "getWinner_from bd (l # ls) = getWinner_from bd ls"
      using False by (simp add: getWinner_from_step del: getWinner_from.simps(2))
    have "?first (l # ls) = ?first ls"
    proof
      assume "?first (l # ls)"
      then obtain n where n: "n < length (l # ls)" "(l # ls) ! n = ln" "satisfied bd ln"
        "p = js_get bd (fst ln)" "\<forall>k<n. \<not> satisfied bd ((l # ls) ! k)" by blast
      from n(2,3) False have "n \<noteq> 0" by (cases n) auto
      then obtain m where m: "n = Suc m" by (cases n) auto
      have "\<forall>k<m. \<not> satisfied bd (ls ! k)"
      proof (intro allI impI)
        fix k assume "k < m"
        then have "Suc k < n" using m by simp
        with n(5) have "\<not> satisfied bd ((l # ls) ! Suc k)" by blast
        then show "\<not> satisfied bd (ls ! k)" by simp
      qed
      with n m show "?first ls" by (intro exI [of _ m]) simp
    next
      assume "?first ls"
      then obtain m where m: "m < length ls" "ls ! m = ln" "satisfied bd ln"
        "p = js_get bd (fst ln)" "\<forall>k<m. \<not> satisfied bd (ls ! k)" by blast
      have "\<forall>k<Suc m. \<not> satisfied bd ((l # ls) ! k)"
      proof (intro allI impI)
        fix k assume k: "k < Suc m"
        show "\<not> satisfied bd ((l # ls) ! k)"
        proof (cases k)
          case 0
          with False show ?thesis by simp
        next
          case (Suc j)
          with k m(5) show ?thesis by simp
        qed
      qed
      with m show "?first (l # ls)" by (intro exI [of _ "Suc m"]) simp
    qed
    with skip Cons.IH show ?thesis by simp
  qed
qed

lemma getWinner_None: "(getWinner bd = None) = (\<forall>ln\<in>set WIN_LINES. \<not> satisfied bd ln)"
  by (simp only: getWinner_def getWinner_from_None)

lemma evaluate_Won: "(evaluate bd = Won p ln) = (getWinner bd = Some (p, ln))"
  by (auto simp: evaluate_def split: option.splits)

lemma evaluate_Draw:
  "(evaluate bd = Draw) = (getWinner bd = None \<and> list_all (\<lambda>v. v \<noteq> Null) bd)"
  by (auto simp: evaluate_def isDraw_def split: option.splits)

lemma evaluate_InProgress:
  "(evaluate bd = InProgress) = (getWinner bd = None \<and> \<not> list_all (\<lambda>v. v \<noteq> Null) bd)"
  by (auto simp: evaluate_def isDraw_def split: option.splits)

lemma WIN_LINES_geometry:
  "WIN_LINES =
     map (\<lambda>r. (3 * r, 3 * r + 1, 3 * r + 2)) [0, 1, 2] @
     map (\<lambda>c. (c, c + 3, c + 6)) [0, 1, 2] @
     [(0, 4, 8), (2, 4, 6)]"
  by (simp add: WIN_LINES_def)

text \<open>
  C1. For every board of the data model: \<open>WIN_LINES\<close> lists the three rows top to
  bottom, the three columns left to right, then the two diagonals; \<open>evaluate\<close> returns
  \<open>Won p ln\<close> exactly when \<open>ln\<close> is the first line of that list whose three cells are
  equal and non-empty and \<open>p\<close> is the mark they hold (so it returns some \<open>Won\<close> exactly
  when some line is satisfied); it returns \<open>Draw\<close> exactly when all nine cells are
  non-empty and no line is satisfied; and \<open>InProgress\<close> exactly when no line is
  satisfied and some cell is empty.
\<close>

theorem evaluate_status:
  assumes "wf_board bd"
  shows
    "WIN_LINES =
       map (\<lambda>r. (3 * r, 3 * r + 1, 3 * r + 2)) [0, 1, 2] @
       map (\<lambda>c. (c, c + 3, c + 6)) [0, 1, 2] @
       [(0, 4, 8), (2, 4, 6)]
     \<and> ((evaluate bd = Won p ln) =
          (\<exists>n<length WIN_LINES. WIN_LINES ! n = ln \<and> satisfied bd ln \<and> p = js_get bd (fst ln) \<and>
             (\<forall>k<n. \<not> satisfied bd (WIN_LINES ! k))))
     \<and> ((\<exists>q l. evaluate bd = Won q l) = (\<exists>l\<in>set WIN_LINES. satisfied bd l))
     \<and> ((evaluate bd = Draw) =
          ((\<forall>i\<in>{0..8}. nonEmpty (js_get bd i)) \<and> (\<forall>l\<in>set WIN_LINES. \<not> satisfied bd l)))
     \<and> ((evaluate bd = InProgress) =
          (\<not> (\<exists>l\<in>set WIN_LINES. satisfied bd l) \<and> \<not> (\<forall>i\<in>{0..8}. nonEmpty (js_get bd i))))"
proof (intro conjI)
  show "WIN_LINES =
       map (\<lambda>r. (3 * r, 3 * r + 1, 3 * r + 2)) [0, 1, 2] @
       map (\<lambda>c. (c, c + 3, c + 6)) [0, 1, 2] @
       [(0, 4, 8), (2, 4, 6)]"
    by (rule WIN_LINES_geometry)
next
  show "(evaluate bd = Won p ln) =
          (\<exists>n<length WIN_LINES. WIN_LINES ! n = ln \<and> satisfied bd ln \<and> p = js_get bd (fst ln) \<and>
             (\<forall>k<n. \<not> satisfied bd (WIN_LINES ! k)))"
    by (simp only: evaluate_Won getWinner_def getWinner_from_Some)
next
  have "(\<exists>q l. evaluate bd = Won q l) = (getWinner bd \<noteq> None)"
    by (auto simp: evaluate_Won)
  then show "(\<exists>q l. evaluate bd = Won q l) = (\<exists>l\<in>set WIN_LINES. satisfied bd l)"
    by (simp add: getWinner_None)
next
  show "(evaluate bd = Draw) =
          ((\<forall>i\<in>{0..8}. nonEmpty (js_get bd i)) \<and> (\<forall>l\<in>set WIN_LINES. \<not> satisfied bd l))"
    by (auto simp only: evaluate_Draw getWinner_None wf_board_full [OF assms])
next
  show "(evaluate bd = InProgress) =
          (\<not> (\<exists>l\<in>set WIN_LINES. satisfied bd l) \<and> \<not> (\<forall>i\<in>{0..8}. nonEmpty (js_get bd i)))"
    by (auto simp only: evaluate_InProgress getWinner_None wf_board_full [OF assms])
qed

text \<open>
  Two boards for C1. On \<open>X X X / O O O / - - -\<close> two rows are satisfied and the first
  one is returned; \<open>X O X / X O O / O X X\<close> is full with no line satisfied, a draw.
\<close>

theorem evaluate_status_witness:
  "wf_board [Str PlayerX, Str PlayerX, Str PlayerX, Str PlayerO, Str PlayerO, Str PlayerO, Null, Null, Null]
   \<and> evaluate [Str PlayerX, Str PlayerX, Str PlayerX, Str PlayerO, Str PlayerO, Str PlayerO, Null, Null, Null]
       = Won (Str PlayerX) (0, 1, 2)
   \<and> wf_board [Str PlayerX, Str PlayerO, Str PlayerX, Str PlayerX, Str PlayerO, Str PlayerO, Str PlayerO, Str PlayerX, Str PlayerX]
   \<and> evaluate [Str PlayerX, Str PlayerO, Str PlayerX, Str PlayerX, Str PlayerO, Str PlayerO, Str PlayerO, Str PlayerX, Str PlayerX]
       = Draw"
proof -
  let ?w = "[Str PlayerX, Str PlayerX, Str PlayerX, Str PlayerO, Str PlayerO, Str PlayerO, Null, Null, Null]"
  let ?d = "[Str PlayerX, Str PlayerO, Str PlayerX, Str PlayerX, Str PlayerO, Str PlayerO, Str PlayerO, Str PlayerX, Str PlayerX]"
  have w: "wf_board ?w" by (simp add: wf_board_def)
  have d: "wf_board ?d" by (simp add: wf_board_def)
  have "\<exists>n<length WIN_LINES. WIN_LINES ! n = (0, 1, 2) \<and> satisfied ?w (0, 1, 2) \<and>
          Str PlayerX = js_get ?w (fst (0, 1, 2)) \<and> (\<forall>k<n. \<not> satisfied ?w (WIN_LINES ! k))"
    by (intro exI [of _ 0]) (simp add: WIN_LINES_def satisfied_def nonEmpty_def js_get_def)
  with evaluate_status [OF w, of "Str PlayerX" "(0, 1, 2)"]
  have 1: "evaluate ?w = Won (Str PlayerX) (0, 1, 2)" by blast
  have "\<forall>l\<in>set WIN_LINES. \<not> satisfied ?d l"
    by (simp add: WIN_LINES_def satisfied_def nonEmpty_def js_get_def)
  moreover have "\<forall>i\<in>{0..8}. nonEmpty (js_get ?d i)"
  proof
    fix i :: int assume "i \<in> {0..8}"
    then have "i = 0 \<or> i = 1 \<or> i = 2 \<or> i = 3 \<or> i = 4 \<or> i = 5 \<or> i = 6 \<or> i = 7 \<or> i = 8"
      by auto
    then show "nonEmpty (js_get ?d i)"
      by (elim disjE) (simp_all add: nonEmpty_def js_get_def)
  qed
  ultimately have 2: "evaluate ?d = Draw"
    using evaluate_status [OF d, of Null "(0, 0, 0)"] by blast
  from w d 1 2 show ?thesis by blast
qed

section \<open>Rendering and the new game\<close>

lemma render_fields:
  "board (render s) = board s" "currentPlayer (render s) = currentPlayer s"
  by (simp_all add: render_def announce_def setStatusText_def split: option.splits prod.splits)

text \<open>\<open>render\<close> raises \<open>gameOver\<close> exactly on a won or drawn board and never lowers it.\<close>

lemma render_gameOver:
  "gameOver (render s) = (gameOver s \<or> evaluate (board s) \<noteq> InProgress)"
  by (simp add: render_def evaluate_def announce_def setStatusText_def
        split: option.splits prod.splits)

lemma render_statusText:
  "statusText (render s) = status_line (evaluate (board s)) (currentPlayer s)"
  by (simp add: render_def evaluate_def announce_def setStatusText_def
        split: option.splits prod.splits)

text \<open>\<open>restartGame\<close> overwrites every variable, whatever the state before.\<close>

lemma restartGame_eq:
  "restartGame s =
     s\<lparr>board := [Null, Null, Null, Null, Null, Null, Null, Null, Null],
       currentPlayer := PlayerX, gameOver := False,
       statusText := ''Turn: X'', liveRegion := ''New game started. Turn: X''\<rparr>"
  by (simp add: restartGame_def render_def announce_def setStatusText_def getWinner_def
        WIN_LINES_def isDraw_def js_get_def numeral_eq_Suc)

lemma restartGame_board: "board (restartGame s) = replicate 9 Null"
  by (simp add: restartGame_eq numeral_eq_Suc)

lemma newGame_eq:
  "newGame =
     \<lparr>board = [Null, Null, Null, Null, Null, Null, Null, Null, Null],
      currentPlayer = PlayerX, gameOver = False,
      statusText = ''Turn: X'', liveRegion = ''New game started. Turn: X''\<rparr>"
  by (simp add: newGame_def restartGame_eq initial_def)

text \<open>The equations that run the functions on a concrete game.\<close>

lemmas run_simps = newGame_eq attemptMove_def announce_def setStatusText_def render_def
  getWinner_def WIN_LINES_def isDraw_def js_get_def js_set_def evaluate_def Let_def

section \<open>One move\<close>

lemma attemptMove_tag:
  "fst (attemptMove s i) =
     (if gameOver s then Some GameOver
      else if js_get (board s) i \<noteq> Null then Some CellOccupied else None)"
  by (simp add: attemptMove_def Let_def)

text \<open>The write of a placed move is always inside the array.\<close>

lemma attemptMove_placed:
  assumes "\<not> gameOver s" "js_get (board s) i = Null"
  shows "attemptMove s i =
     (None, render (s\<lparr>board := (board s)[nat i := Str (currentPlayer s)],
                      currentPlayer := (if currentPlayer s = PlayerX then PlayerO else PlayerX),
                      liveRegion := ''Move placed. Turn: '' @
                        mark_str (if currentPlayer s = PlayerX then PlayerO else PlayerX)\<rparr>))"
proof -
  from assms(2) have "0 \<le> i \<and> i < int (length (board s))" by (rule js_get_Null_in_range)
  then have "js_set (board s) i (Str (currentPlayer s)) = (board s)[nat i := Str (currentPlayer s)]"
    by (simp add: js_set_in_range)
  with assms show ?thesis
    by (simp add: attemptMove_def announce_def Let_def)
qed

lemma attemptMove_turn:
  "currentPlayer (snd (attemptMove s i)) =
     (if fst (attemptMove s i) = None
      then (if currentPlayer s = PlayerX then PlayerO else PlayerX)
      else currentPlayer s)"
  by (simp add: attemptMove_def announce_def Let_def render_fields)

lemma attemptMove_keeps_mark:
  assumes "js_get (board s) j = Str m"
  shows "js_get (board (snd (attemptMove s i))) j = Str m"
proof (cases "fst (attemptMove s i)")
  case (Some e)
  then have "board (snd (attemptMove s i)) = board s"
    by (auto simp: attemptMove_def announce_def Let_def split: if_splits)
  with assms show ?thesis by simp
next
  case None
  then have go: "\<not> gameOver s" and nul: "js_get (board s) i = Null"
    by (auto simp: attemptMove_tag split: if_splits)
  from nul assms have "j \<noteq> i" by auto
  moreover from nul have "0 \<le> i" "i < int (length (board s))"
    using js_get_Null_in_range by blast+
  ultimately have "js_get ((board s)[nat i := Str (currentPlayer s)]) j = js_get (board s) j"
    by (auto simp: js_get_def nth_list_update)
  with assms show ?thesis
    by (simp add: attemptMove_placed [OF go nul] render_fields)
qed

text \<open>
  C2. For every state with \<open>gameOver\<close> false and every index in \<open>0..8\<close> whose cell is
  \<open>null\<close>, \<open>attemptMove\<close> places a mark: the board is the old one with that index set
  to the old \<open>currentPlayer\<close>, \<open>currentPlayer\<close> is the other mark, and the status the
  call leaves (\<open>gameOver\<close> and the status line) is the one \<open>evaluate\<close> gives for the
  new board.
\<close>

theorem attemptMove_success:
  assumes "\<not> gameOver s" and "0 \<le> i" and "i \<le> 8" and "js_get (board s) i = Null"
  shows "fst (attemptMove s i) = None
     \<and> board (snd (attemptMove s i)) = (board s)[nat i := Str (currentPlayer s)]
     \<and> js_get (board (snd (attemptMove s i))) i = Str (currentPlayer s)
     \<and> currentPlayer (snd (attemptMove s i)) = (if currentPlayer s = PlayerX then PlayerO else PlayerX)
     \<and> currentPlayer (snd (attemptMove s i)) \<noteq> currentPlayer s
     \<and> gameOver (snd (attemptMove s i)) = (evaluate (board (snd (attemptMove s i))) \<noteq> InProgress)
     \<and> statusText (snd (attemptMove s i)) =
         status_line (evaluate (board (snd (attemptMove s i)))) (currentPlayer (snd (attemptMove s i)))"
proof -
  from assms(4) have rng: "0 \<le> i" "i < int (length (board s))"
    using js_get_Null_in_range by blast+
  note am = attemptMove_placed [OF assms(1) assms(4)]
  have get_i: "js_get ((board s)[nat i := Str (currentPlayer s)]) i = Str (currentPlayer s)"
    using rng by (simp add: js_get_def)
  show ?thesis
    unfolding am using assms(1) get_i
    by (simp add: render_fields render_gameOver render_statusText)
qed

text \<open>C2 at the first move of a game, on the centre cell.\<close>

theorem attemptMove_success_witness:
  "\<not> gameOver newGame \<and> (0::int) \<le> 4 \<and> (4::int) \<le> 8 \<and> js_get (board newGame) 4 = Null
   \<and> fst (attemptMove newGame 4) = None
   \<and> board (snd (attemptMove newGame 4)) =
       [Null, Null, Null, Null, Str PlayerX, Null, Null, Null, Null]
   \<and> currentPlayer (snd (attemptMove newGame 4)) = PlayerO
   \<and> gameOver (snd (attemptMove newGame 4)) = (evaluate (board (snd (attemptMove newGame 4))) \<noteq> InProgress)"
proof -
  have h1: "\<not> gameOver newGame" by (simp add: newGame_eq)
  have h4: "js_get (board newGame) 4 = Null" by (simp add: newGame_eq js_get_def)
  have b: "(board newGame)[nat 4 := Str (currentPlayer newGame)] =
       [Null, Null, Null, Null, Str PlayerX, Null, Null, Null, Null]"
    by (simp add: newGame_eq numeral_eq_Suc)
  have c: "currentPlayer newGame = PlayerX" by (simp add: newGame_eq)
  from attemptMove_success [OF h1 _ _ h4] h1 h4 b c show ?thesis by simp
qed

text \<open>
  C3, as the code has it. \<open>attemptMove\<close> checks in this order: \<open>gameOver\<close> (the
  game-over return); then the cell read at the index, which is not \<open>null\<close> both when
  the index is outside \<open>0..8\<close> and when the cell holds a mark, and either way takes the
  occupied-cell return; otherwise the mark is placed. No call ends in a return of its
  own for an index out of range.
\<close>

theorem attemptMove_checks:
  assumes "wf_board (board s)"
  shows "fst (attemptMove s i) =
     (if gameOver s then Some GameOver
      else if i < 0 \<or> 8 < i then Some CellOccupied
      else if nonEmpty (js_get (board s) i) then Some CellOccupied
      else None)
    \<and> fst (attemptMove s i) \<noteq> Some InvalidIndex"
proof -
  from assms have len: "length (board s) = 9" and def: "\<forall>n<9. board s ! n \<noteq> Undefined"
    by (simp_all add: wf_board_def list_all_length)
  have out: "i < 0 \<or> 8 < i \<Longrightarrow> js_get (board s) i \<noteq> Null"
    using len by (auto simp: js_get_def)
  have "\<not> (i < 0 \<or> 8 < i) \<Longrightarrow> js_get (board s) i \<noteq> Undefined"
    using len def by (auto simp: js_get_def)
  then have inr: "\<not> (i < 0 \<or> 8 < i) \<Longrightarrow> nonEmpty (js_get (board s) i) = (js_get (board s) i \<noteq> Null)"
    by (simp add: nonEmpty_iff)
  show ?thesis
    using out inr by (auto simp: attemptMove_tag)
qed

text \<open>
  The three outcomes of C3 on the game after X has taken the centre: the centre again
  is rejected as occupied, so is the index \<open>-1\<close>, and the corner \<open>0\<close> is placed.
\<close>

theorem attemptMove_checks_witness:
  "wf_board (board (snd (attemptMove newGame 4)))
   \<and> fst (attemptMove (snd (attemptMove newGame 4)) 4) = Some CellOccupied
   \<and> fst (attemptMove (snd (attemptMove newGame 4)) (- 1)) = Some CellOccupied
   \<and> fst (attemptMove (snd (attemptMove newGame 4)) 0) = None"
proof -
  let ?s = "snd (attemptMove newGame 4)"
  have s: "?s = \<lparr>board = [Null, Null, Null, Null, Str PlayerX, Null, Null, Null, Null],
      currentPlayer = PlayerO, gameOver = False,
      statusText = ''Turn: O'', liveRegion = ''Move placed. Turn: O''\<rparr>"
    by (simp add: run_simps)
  have w: "wf_board (board ?s)" by (simp add: s wf_board_def)
  have a: "fst (attemptMove ?s 4) = Some CellOccupied"
    using attemptMove_checks [OF w, of 4] by (simp add: s js_get_def nonEmpty_def)
  have b: "fst (attemptMove ?s (- 1)) = Some CellOccupied"
    using attemptMove_checks [OF w, of "- 1"] by (simp add: s)
  have c: "fst (attemptMove ?s 0) = None"
    using attemptMove_checks [OF w, of 0] by (simp add: s js_get_def nonEmpty_def)
  from w a b c show ?thesis by blast
qed

text \<open>
  Against C3 as stated: on a new game (in progress) the index \<open>9\<close> is outside \<open>0..8\<close>,
  and the call ends in the occupied-cell return, not in an invalid-index error.
\<close>

theorem attemptMove_invalid_index_counterexample:
  "\<not> gameOver newGame
   \<and> fst (attemptMove newGame 9) = Some CellOccupied
   \<and> fst (attemptMove newGame 9) \<noteq> Some InvalidIndex"
  by (simp add: run_simps)

text \<open>
  C4. Whenever \<open>attemptMove\<close> rejects a move, the board, \<open>currentPlayer\<close>, \<open>gameOver\<close>
  and the status line are what they were before the call (and so is the status of the
  board).
\<close>

theorem attemptMove_failure_unchanged:
  assumes "fst (attemptMove s i) = Some e"
  shows "board (snd (attemptMove s i)) = board s
     \<and> currentPlayer (snd (attemptMove s i)) = currentPlayer s
     \<and> gameOver (snd (attemptMove s i)) = gameOver s
     \<and> statusText (snd (attemptMove s i)) = statusText s
     \<and> evaluate (board (snd (attemptMove s i))) = evaluate (board s)"
  using assms by (auto simp: attemptMove_def announce_def Let_def split: if_splits)

text \<open>C4 on a second move at the centre, after X has taken it.\<close>

theorem attemptMove_failure_unchanged_witness:
  "fst (attemptMove (snd (attemptMove newGame 4)) 4) = Some CellOccupied
   \<and> board (snd (attemptMove (snd (attemptMove newGame 4)) 4)) =
       [Null, Null, Null, Null, Str PlayerX, Null, Null, Null, Null]
   \<and> currentPlayer (snd (attemptMove (snd (attemptMove newGame 4)) 4)) = PlayerO
   \<and> gameOver (snd (attemptMove (snd (attemptMove newGame 4)) 4)) = False
   \<and> statusText (snd (attemptMove (snd (attemptMove newGame 4)) 4)) = ''Turn: O''"
proof -
  let ?s = "snd (attemptMove newGame 4)"
  have s: "?s = \<lparr>board = [Null, Null, Null, Null, Str PlayerX, Null, Null, Null, Null],
      currentPlayer = PlayerO, gameOver = False,
      statusText = ''Turn: O'', liveRegion = ''Move placed. Turn: O''\<rparr>"
    by (simp add: run_simps)
  have f: "fst (attemptMove ?s 4) = Some CellOccupied"
    by (simp add: s attemptMove_tag js_get_def)
  from attemptMove_failure_unchanged [OF f] f show ?thesis
    by (simp add: s)
qed

text \<open>
  C10, as the code has it. For a board of nine cells and an integer index outside
  \<open>0..8\<close>: when \<open>gameOver\<close> is false the call takes the occupied-cell return (it
  announces "That cell is already taken."), because the read out of range is
  \<open>undefined\<close>, not \<open>null\<close>; when \<open>gameOver\<close> is true it returns at the game-over
  check, before the read. Either way the board, its length, \<open>currentPlayer\<close> and
  \<open>gameOver\<close> are unchanged, so no mark is written outside the nine cells.
\<close>

theorem attemptMove_out_of_range:
  assumes "length (board s) = 9" and "i < 0 \<or> 8 < i"
  shows "fst (attemptMove s i) = (if gameOver s then Some GameOver else Some CellOccupied)
     \<and> liveRegion (snd (attemptMove s i)) =
         (if gameOver s then liveRegion s else ''That cell is already taken.'')
     \<and> board (snd (attemptMove s i)) = board s
     \<and> length (board (snd (attemptMove s i))) = 9
     \<and> currentPlayer (snd (attemptMove s i)) = currentPlayer s
     \<and> gameOver (snd (attemptMove s i)) = gameOver s"
proof -
  from assms have "js_get (board s) i = Undefined"
    by (intro js_get_out_of_range) auto
  with assms(1) show ?thesis
    by (simp add: attemptMove_def announce_def)
qed

text \<open>C10 on a new game, at the index \<open>12\<close>.\<close>

theorem attemptMove_out_of_range_witness:
  "length (board newGame) = 9 \<and> (8::int) < 12
   \<and> fst (attemptMove newGame 12) = Some CellOccupied
   \<and> liveRegion (snd (attemptMove newGame 12)) = ''That cell is already taken.''
   \<and> board (snd (attemptMove newGame 12)) = board newGame
   \<and> length (board (snd (attemptMove newGame 12))) = 9
   \<and> currentPlayer (snd (attemptMove newGame 12)) = PlayerX
   \<and> gameOver (snd (attemptMove newGame 12)) = False"
proof -
  have l: "length (board newGame) = 9" by (simp add: newGame_eq)
  have g: "gameOver newGame = False" "currentPlayer newGame = PlayerX"
    by (simp_all add: newGame_eq)
  from attemptMove_out_of_range [OF l, of 12] l g show ?thesis by simp
qed

text \<open>
  Against C10 as stated: after X has won on the top row (moves \<open>0, 3, 1, 4, 2\<close>)
  \<open>gameOver\<close> is true, and a call at the index \<open>9\<close> returns at the game-over check:
  it does not take the occupied-cell return and announces nothing.
\<close>

theorem attemptMove_out_of_range_counterexample:
  "gameOver (snd (attemptMoves newGame [0, 3, 1, 4, 2]))
   \<and> fst (attemptMove (snd (attemptMoves newGame [0, 3, 1, 4, 2])) 9) = Some GameOver
   \<and> fst (attemptMove (snd (attemptMoves newGame [0, 3, 1, 4, 2])) 9) \<noteq> Some CellOccupied
   \<and> liveRegion (snd (attemptMove (snd (attemptMoves newGame [0, 3, 1, 4, 2])) 9)) = ''X wins!''"
  by (simp add: run_simps)

section \<open>Sequences of moves\<close>

lemma attemptMoves_Cons:
  "fst (attemptMoves s (i # is)) =
     fst (attemptMove s i) # fst (attemptMoves (snd (attemptMove s i)) is)"
  "snd (attemptMoves s (i # is)) = snd (attemptMoves (snd (attemptMove s i)) is)"
  by (simp_all split: prod.splits)

lemma placed_Cons: "placed (r # rs) = (if r = None then Suc (placed rs) else placed rs)"
  by (simp add: placed_def)

text \<open>From any state, the turn after a sequence of calls depends only on the parity of
  the calls that placed a mark.\<close>

lemma attemptMoves_turn:
  "currentPlayer (snd (attemptMoves s is)) =
     (if even (placed (fst (attemptMoves s is))) then currentPlayer s
      else (if currentPlayer s = PlayerX then PlayerO else PlayerX))"
proof (induction "is" arbitrary: s)
  case Nil
  show ?case by (simp add: placed_def)
next
  case (Cons i "is")
  have "currentPlayer s = PlayerX \<or> currentPlayer s = PlayerO"
    by (cases "currentPlayer s") simp_all
  then show ?case
    by (simp only: attemptMoves_Cons placed_Cons Cons.IH attemptMove_turn)
       (auto split: if_splits)
qed

lemma attemptMoves_keeps_mark:
  "js_get (board s) j = Str m \<Longrightarrow> js_get (board (snd (attemptMoves s is))) j = Str m"
proof (induction "is" arbitrary: s)
  case Nil
  then show ?case by simp
next
  case (Cons i "is")
  from Cons.prems have "js_get (board (snd (attemptMove s i))) j = Str m"
    by (rule attemptMove_keeps_mark)
  then have "js_get (board (snd (attemptMoves (snd (attemptMove s i)) is))) j = Str m"
    by (rule Cons.IH)
  then show ?case by (simp only: attemptMoves_Cons)
qed

text \<open>
  C5. From the new game, after any sequence of \<open>attemptMove\<close> calls, \<open>currentPlayer\<close>
  is X exactly when the number of calls that placed a mark is even (rejected calls do
  not count and do not change the turn); the new game starts with X, and
  \<open>restartGame\<close> sets \<open>currentPlayer\<close> back to X from every state.
\<close>

theorem turn_alternation:
  "(currentPlayer (snd (attemptMoves newGame is)) = PlayerX)
      = even (placed (fst (attemptMoves newGame is)))
   \<and> currentPlayer newGame = PlayerX
   \<and> currentPlayer (restartGame s) = PlayerX"
proof -
  have "currentPlayer newGame = PlayerX" by (simp add: newGame_eq)
  then show ?thesis
    by (simp add: attemptMoves_turn restartGame_eq)
qed

text \<open>C5 on the calls \<open>0, 0, 4\<close>: the second is rejected, two marks are placed, and it
  is X's turn again.\<close>

theorem turn_alternation_witness:
  "placed (fst (attemptMoves newGame [0, 0, 4])) = 2
   \<and> currentPlayer (snd (attemptMoves newGame [0, 0, 4])) = PlayerX
   \<and> currentPlayer (restartGame (snd (attemptMoves newGame [0]))) = PlayerX"
proof -
  have p: "placed (fst (attemptMoves newGame [0, 0, 4])) = 2"
    by (simp add: run_simps placed_def)
  from turn_alternation [of "[0, 0, 4]" "snd (attemptMoves newGame [0])"] p
  show ?thesis by simp
qed

text \<open>
  C6. A cell that holds a mark holds the same mark after an \<open>attemptMove\<close> call at any
  index, placed or rejected, and after any sequence of such calls; \<open>restartGame\<close>, the
  only other function that assigns \<open>board\<close>, makes a board of nine \<open>null\<close>s, in which
  every cell \<open>0..8\<close> is empty again.
\<close>

theorem marks_persist:
  "(js_get (board s) j = Str m \<longrightarrow>
      js_get (board (snd (attemptMove s i))) j = Str m
      \<and> js_get (board (snd (attemptMoves s is))) j = Str m)
   \<and> board (restartGame s) = replicate 9 Null
   \<and> (0 \<le> j \<and> j \<le> 8 \<longrightarrow> js_get (board (restartGame s)) j = Null)"
proof (intro conjI impI)
  assume "js_get (board s) j = Str m"
  then show "js_get (board (snd (attemptMove s i))) j = Str m"
    by (rule attemptMove_keeps_mark)
next
  assume "js_get (board s) j = Str m"
  then show "js_get (board (snd (attemptMoves s is))) j = Str m"
    by (rule attemptMoves_keeps_mark)
next
  show "board (restartGame s) = replicate 9 Null" by (rule restartGame_board)
next
  assume j: "0 \<le> j \<and> j \<le> 8"
  then have "nat j < 9" by linarith
  then have "replicate 9 Null ! nat j = Null" by (rule nth_replicate)
  with j show "js_get (board (restartGame s)) j = Null"
    by (simp add: restartGame_board js_get_def)
qed

text \<open>
  C6 on the centre cell after X has taken it: it stays X after a rejected call at the
  centre, after a placed call at \<open>0\<close> and after the calls \<open>0, 4, 8\<close>, and is empty
  after a restart.
\<close>

theorem marks_persist_witness:
  "js_get (board (snd (attemptMove newGame 4))) 4 = Str PlayerX
   \<and> js_get (board (snd (attemptMove (snd (attemptMove newGame 4)) 4))) 4 = Str PlayerX
   \<and> js_get (board (snd (attemptMove (snd (attemptMove newGame 4)) 0))) 4 = Str PlayerX
   \<and> js_get (board (snd (attemptMoves (snd (attemptMove newGame 4)) [0, 4, 8]))) 4 = Str PlayerX
   \<and> js_get (board (restartGame (snd (attemptMove newGame 4)))) 4 = Null"
proof -
  let ?s = "snd (attemptMove newGame 4)"
  have h: "js_get (board ?s) 4 = Str PlayerX" by (simp add: run_simps)
  from marks_persist [of ?s 4 PlayerX 4 "[0, 4, 8]"] marks_persist [of ?s 4 PlayerX 0 "[]"] h
  show ?thesis by simp
qed

section \<open>The states a game goes through\<close>

lemma wf_board_update:
  assumes "wf_board bd"
  shows "wf_board (bd[n := Str m])"
proof -
  have "set (bd[n := Str m]) \<subseteq> insert (Str m) (set bd)"
    by (rule set_update_subset_insert)
  with assms show ?thesis
    by (auto simp: wf_board_def list_all_iff)
qed

lemma attemptMove_consistent:
  assumes "consistent s"
  shows "consistent (snd (attemptMove s i))"
proof (cases "gameOver s")
  case True
  with assms show ?thesis by (simp add: attemptMove_def)
next
  case False
  show ?thesis
  proof (cases "js_get (board s) i = Null")
    case True
    show ?thesis
      using assms False
      by (simp add: attemptMove_placed [OF False True] consistent_def render_fields
            render_gameOver render_statusText wf_board_update)
  next
    case occupied: False
    with assms False show ?thesis
      by (simp add: attemptMove_def announce_def consistent_def)
  qed
qed

lemma attemptMoves_consistent:
  "consistent s \<Longrightarrow> consistent (snd (attemptMoves s is))"
proof (induction "is" arbitrary: s)
  case Nil
  then show ?case by simp
next
  case (Cons i "is")
  from Cons.prems have "consistent (snd (attemptMove s i))"
    by (rule attemptMove_consistent)
  then have "consistent (snd (attemptMoves (snd (attemptMove s i)) is))"
    by (rule Cons.IH)
  then show ?case by (simp only: attemptMoves_Cons)
qed

lemma restartGame_consistent: "consistent (restartGame s)"
  by (simp add: restartGame_eq consistent_def wf_board_def evaluate_def getWinner_def
        WIN_LINES_def isDraw_def js_get_def)

text \<open>
  Every state reached from the new game, or from a restart in any state, by any
  sequence of \<open>attemptMove\<close> calls has a board of nine cells that are \<open>null\<close> or a
  mark, \<open>gameOver\<close> set exactly when that board is won or drawn, and the status line
  of that board's status.
\<close>

theorem reachable_consistent:
  "consistent (snd (attemptMoves newGame is))
   \<and> consistent (snd (attemptMoves (restartGame s) is))"
proof -
  have "consistent newGame"
    unfolding newGame_def by (rule restartGame_consistent)
  then show ?thesis
    by (simp add: attemptMoves_consistent restartGame_consistent)
qed

section \<open>Arrow keys on the grid\<close>

lemma index_cases:
  assumes "0 \<le> i" "i \<le> (8::int)"
  shows "i = 0 \<or> i = 1 \<or> i = 2 \<or> i = 3 \<or> i = 4 \<or> i = 5 \<or> i = 6 \<or> i = 7 \<or> i = 8"
  using assms by linarith

text \<open>
  C7. For every index in \<open>0..8\<close> and each of the four arrow keys, the new index is in
  \<open>0..8\<close>; it is \<open>row * 3 + col\<close> for \<open>row = index div 3\<close>, \<open>col = index mod 3\<close> with
  the one coordinate moved by the key and clamped (Up: \<open>max 0 (row - 1)\<close>, Down:
  \<open>min 2 (row + 1)\<close>, Left: \<open>max 0 (col - 1)\<close>, Right: \<open>min 2 (col + 1)\<close>); and so it
  stays where it is on the edge it would leave and moves by exactly one cell
  otherwise, never wrapping around.
\<close>

theorem focusStep_clamps:
  assumes "0 \<le> i" and "i \<le> 8"
  shows "0 \<le> focusStep i (key_of d) \<and> focusStep i (key_of d) \<le> 8
    \<and> focusStep i (key_of d) =
        (case d of
           Up \<Rightarrow> max 0 (i div 3 - 1) * 3 + i mod 3
         | Down \<Rightarrow> min 2 (i div 3 + 1) * 3 + i mod 3
         | Left \<Rightarrow> (i div 3) * 3 + max 0 (i mod 3 - 1)
         | Right \<Rightarrow> (i div 3) * 3 + min 2 (i mod 3 + 1))
    \<and> focusStep i (key_of d) =
        (case d of
           Up \<Rightarrow> if i div 3 = 0 then i else i - 3
         | Down \<Rightarrow> if i div 3 = 2 then i else i + 3
         | Left \<Rightarrow> if i mod 3 = 0 then i else i - 1
         | Right \<Rightarrow> if i mod 3 = 2 then i else i + 1)"
proof -
  from assms have "i = 0 \<or> i = 1 \<or> i = 2 \<or> i = 3 \<or> i = 4 \<or> i = 5 \<or> i = 6 \<or> i = 7 \<or> i = 8"
    by (rule index_cases)
  then show ?thesis
    by (elim disjE; cases d) (simp_all add: focusStep_def js_rem_def Let_def)
qed

text \<open>
  C7 at two corners, the centre and the right edge: Up from \<open>0\<close> and Right from \<open>8\<close>
  stay, Left from \<open>4\<close> goes to \<open>3\<close>, and Right from \<open>2\<close> stays at \<open>2\<close> instead of
  wrapping to \<open>3\<close>.
\<close>

theorem focusStep_clamps_witness:
  "focusStep 0 ''ArrowUp'' = 0 \<and> focusStep 8 ''ArrowRight'' = 8
   \<and> focusStep 4 ''ArrowLeft'' = 3 \<and> focusStep 2 ''ArrowRight'' = 2
   \<and> focusStep 7 ''ArrowDown'' = 7 \<and> focusStep 7 ''ArrowUp'' = 4"
  using focusStep_clamps [of 0 Up] focusStep_clamps [of 8 Right] focusStep_clamps [of 4 Left]
    focusStep_clamps [of 2 Right] focusStep_clamps [of 7 Down] focusStep_clamps [of 7 Up]
  by simp

section \<open>Two games played out\<close>

text \<open>
  C8, as the code has it. From the new game the nine calls at
  \<open>0, 1, 2, 3, 5, 6, 4, 7, 8\<close> all place a mark, X and O in turn starting with X. The
  last one puts X on \<open>8\<close> and completes the column \<open>2, 5, 8\<close> (and the diagonal
  \<open>0, 4, 8\<close>, later in the list): the final board is \<open>X O X / O X X / O O X\<close> and the
  game is won by X on the line \<open>[2, 5, 8]\<close>.
\<close>

theorem nine_moves_game:
  "fst (attemptMoves newGame [0, 1, 2, 3, 5, 6, 4, 7, 8]) =
       [None, None, None, None, None, None, None, None, None]
   \<and> board (snd (attemptMoves newGame [0, 1, 2, 3, 5, 6, 4, 7, 8])) =
       [Str PlayerX, Str PlayerO, Str PlayerX,
        Str PlayerO, Str PlayerX, Str PlayerX,
        Str PlayerO, Str PlayerO, Str PlayerX]
   \<and> evaluate (board (snd (attemptMoves newGame [0, 1, 2, 3, 5, 6, 4, 7, 8]))) =
       Won (Str PlayerX) (2, 5, 8)
   \<and> gameOver (snd (attemptMoves newGame [0, 1, 2, 3, 5, 6, 4, 7, 8]))
   \<and> statusText (snd (attemptMoves newGame [0, 1, 2, 3, 5, 6, 4, 7, 8])) = ''X wins!''"
  by (simp add: run_simps)

text \<open>
  Against C8 as stated: after those nine calls the status is not a draw, and the board
  is not \<open>X O X / O O X / O X O\<close> (a board with four X and five O, which no game that
  X starts can reach).
\<close>

theorem nine_moves_game_counterexample:
  "evaluate (board (snd (attemptMoves newGame [0, 1, 2, 3, 5, 6, 4, 7, 8]))) \<noteq> Draw
   \<and> board (snd (attemptMoves newGame [0, 1, 2, 3, 5, 6, 4, 7, 8])) \<noteq>
       [Str PlayerX, Str PlayerO, Str PlayerX,
        Str PlayerO, Str PlayerO, Str PlayerX,
        Str PlayerO, Str PlayerX, Str PlayerO]"
  by (simp add: run_simps)

text \<open>
  C9, as the code has it. X cannot place two marks in a row, so the top row needs an O
  move in between: from the new game the calls at \<open>0\<close> (X), \<open>4\<close> (O), \<open>1\<close> (X), \<open>8\<close>
  (O), \<open>2\<close> (X) all place a mark and leave the game won by X on the line \<open>[0, 1, 2]\<close>;
  a call at cell \<open>3\<close> afterwards returns at the game-over check and leaves the whole
  state, the board included, as it was.
\<close>

theorem top_row_game:
  "fst (attemptMoves newGame [0, 4, 1, 8, 2]) = [None, None, None, None, None]
   \<and> board (snd (attemptMoves newGame [0, 4, 1, 8, 2])) =
       [Str PlayerX, Str PlayerX, Str PlayerX,
        Null, Str PlayerO, Null,
        Null, Null, Str PlayerO]
   \<and> evaluate (board (snd (attemptMoves newGame [0, 4, 1, 8, 2]))) = Won (Str PlayerX) (0, 1, 2)
   \<and> gameOver (snd (attemptMoves newGame [0, 4, 1, 8, 2]))
   \<and> attemptMove (snd (attemptMoves newGame [0, 4, 1, 8, 2])) 3 =
       (Some GameOver, snd (attemptMoves newGame [0, 4, 1, 8, 2]))"
  by (simp add: run_simps)

text \<open>
  Against C9 as stated: after the four calls at \<open>0, 4, 1, 2\<close> the mark on cell \<open>2\<close> is
  O, the game is still in progress, and the call at cell \<open>3\<close> places a mark instead of
  being rejected.
\<close>

theorem top_row_game_counterexample:
  "js_get (board (snd (attemptMoves newGame [0, 4, 1, 2]))) 2 = Str PlayerO
   \<and> evaluate (board (snd (attemptMoves newGame [0, 4, 1, 2]))) = InProgress
   \<and> \<not> gameOver (snd (attemptMoves newGame [0, 4, 1, 2]))
   \<and> fst (attemptMove (snd (attemptMoves newGame [0, 4, 1, 2])) 3) = None
   \<and> board (snd (attemptMove (snd (attemptMoves newGame [0, 4, 1, 2])) 3)) \<noteq>
       board (snd (attemptMoves newGame [0, 4, 1, 2]))"
  by (simp add: run_simps)

end
